theory Spec2Isabelle
  imports Complex_Main
begin

section \<open>Embedding of \<^verbatim>\<open>rk.py\<close>: the Runge-Kutta engine\<close>

text \<open>
  Numbers are modelled as exact reals: the arithmetic of the program is \<open>+\<close>, \<open>*\<close> and
  Python's \<open>round(x, ndigits)\<close>, and the embedding gives them their exact values (what
  Python computes on \<open>int\<close> and \<open>Fraction\<close> arguments). The rounding error of binary
  floating point is outside the model.

  Exceptions are values of \<open>error + 'a\<close>. The source reads lists by index and calls the
  caller's derivative functions; these are the only places where it can raise.
  \<open>ConfigurationError\<close> is the error kind named by the specification; no statement of the
  source raises it.
\<close>

datatype error = ConfigurationError | IndexError | EvaluationError

definition bindE :: "error + 'a \<Rightarrow> ('a \<Rightarrow> error + 'b) \<Rightarrow> error + 'b" where
  "bindE m k = (case m of Inl e \<Rightarrow> Inl e | Inr x \<Rightarrow> k x)"

text \<open>\<open>xs[i]\<close> for an index \<open>i \<ge> 0\<close>: Python raises IndexError out of range.\<close>

definition nth_py :: "'a list \<Rightarrow> nat \<Rightarrow> error + 'a" where
  "nth_py xs i = (if i < length xs then Inr (xs ! i) else Inl IndexError)"

text \<open>A list comprehension \<open>[g(x) for x in xs]\<close>: elements in order, the first raise aborts.\<close>

fun mapE :: "('a \<Rightarrow> error + 'b) \<Rightarrow> 'a list \<Rightarrow> error + 'b list" where
  "mapE g [] = Inr []"
| "mapE g (x # xs) = bindE (g x) (\<lambda>v. bindE (mapE g xs) (\<lambda>vs. Inr (v # vs)))"

text \<open>\<open>sum(g(x) for x in xs)\<close>: the accumulator starts at 0 and takes the items in order.\<close>

fun sumE :: "('a \<Rightarrow> error + real) \<Rightarrow> 'a list \<Rightarrow> real \<Rightarrow> error + real" where
  "sumE g [] acc = Inr acc"
| "sumE g (x # xs) acc = bindE (g x) (\<lambda>v. sumE g xs (acc + v))"

text \<open>
  A derivative function receives the instant and the \<open>n\<close> state values
  (\<open>f(instante, *termos_y)\<close>); \<open>None\<close> is "the function raised".
\<close>

type_synonym deriv = "real \<Rightarrow> real list \<Rightarrow> real option"

definition call :: "deriv \<Rightarrow> real \<Rightarrow> real list \<Rightarrow> error + real" where
  "call f t ys = (case f t ys of None \<Rightarrow> Inl EvaluationError | Some v \<Rightarrow> Inr v)"

record RK =
  self_R :: int
  self_n :: nat
  self_f :: "deriv list"
  self_t0 :: real
  self_y0 :: "real list"
  self_h :: real
  self_a :: "real list list"
  self_b :: "real list"
  self_c :: "real list"
  self_qntdCasasArredondamento :: int

text \<open>\<open>RK.__init__\<close>: stores its arguments and the row sums of \<open>a\<close>; it has no check.\<close>

definition RK_init ::
  "deriv list \<Rightarrow> real \<Rightarrow> real list \<Rightarrow> real \<Rightarrow> int \<Rightarrow> real list list \<Rightarrow> real list \<Rightarrow> RK" where
  "RK_init f t0 y0 h R a b =
     \<lparr> self_R = R, self_n = length f, self_f = f, self_t0 = t0, self_y0 = y0, self_h = h,
       self_a = a, self_b = b, self_c = map sum_list a,
       self_qntdCasasArredondamento = 10 \<rparr>"

text \<open>The call \<open>RK(f, t0, y0, h, R, a, b)\<close> as a fallible operation: no path of it raises.\<close>

definition RK_new ::
  "deriv list \<Rightarrow> real \<Rightarrow> real list \<Rightarrow> real \<Rightarrow> int \<Rightarrow> real list list \<Rightarrow> real list \<Rightarrow> error + RK" where
  "RK_new f t0 y0 h R a b = Inr (RK_init f t0 y0 h R a b)"

lemma bindE_cong [fundef_cong]:
  "m = m' \<Longrightarrow> (\<And>x. m' = Inr x \<Longrightarrow> k x = k' x) \<Longrightarrow> bindE m k = bindE m' k'"
  by (auto simp: bindE_def split: sum.splits)

lemma mapE_cong [fundef_cong]:
  "xs = ys \<Longrightarrow> (\<And>x. x \<in> set ys \<Longrightarrow> g x = g' x) \<Longrightarrow> mapE g xs = mapE g' ys"
  by (induction ys arbitrary: xs) (auto intro: bindE_cong)

lemma sumE_cong [fundef_cong]:
  "xs = ys \<Longrightarrow> (\<And>x. x \<in> set ys \<Longrightarrow> g x = g' x) \<Longrightarrow> acc = acc' \<Longrightarrow> sumE g xs acc = sumE g' ys acc'"
  by (induction ys arbitrary: xs acc acc') (auto intro: bindE_cong)

text \<open>
  \<open>RK.kappa\<close>: stage \<open>r\<close>. The shifted state is rebuilt for each component \<open>i\<close>; its sum
  ranges over \<open>range(r-1)\<close>, which is empty for \<open>r \<le> 1\<close>.
\<close>

function kappa :: "RK \<Rightarrow> deriv \<Rightarrow> real \<Rightarrow> real list \<Rightarrow> nat \<Rightarrow> error + real" where
  "kappa rk f t y r =
     bindE (nth_py (self_c rk) r) (\<lambda>cr.
       let instante = t + self_h rk * cr in
       bindE (mapE (\<lambda>i.
                bindE (nth_py y i) (\<lambda>yi.
                  bindE (sumE (\<lambda>s.
                           bindE (nth_py (self_a rk) r) (\<lambda>ar.
                             bindE (nth_py ar s) (\<lambda>ars.
                               bindE (kappa rk f t y s) (\<lambda>k. Inr (ars * k)))))
                         [0..<r - 1] 0) (\<lambda>sm.
                    Inr (yi + self_h rk * sm))))
              [0..<self_n rk]) (\<lambda>termos_y.
         call f instante termos_y))"
  by pat_completeness auto
termination
  by (relation "measure (\<lambda>(rk, f, t, y, r). r)") auto

text \<open>\<open>RK.phi\<close>: the sum over \<open>range(R)\<close> of \<open>b[r] * kappa(f, t, y, r)\<close>.\<close>

definition phi :: "RK \<Rightarrow> deriv \<Rightarrow> real \<Rightarrow> real list \<Rightarrow> error + real" where
  "phi rk f t y =
     sumE (\<lambda>r. bindE (nth_py (self_b rk) r) (\<lambda>br.
                 bindE (kappa rk f t y r) (\<lambda>k. Inr (br * k))))
          [0..<nat (self_R rk)] 0"

text \<open>\<open>RK.yk1\<close>: one step; a new list is built from \<open>tk\<close> and \<open>yk\<close>, which are only read.\<close>

definition yk1 :: "RK \<Rightarrow> real \<Rightarrow> real list \<Rightarrow> error + (real \<times> real list)" where
  "yk1 rk tk yk =
     (let tk1 = tk + self_h rk in
      bindE (mapE (\<lambda>i.
               bindE (nth_py yk i) (\<lambda>yi.
                 bindE (nth_py (self_f rk) i) (\<lambda>fi.
                   bindE (phi rk fi tk yk) (\<lambda>p.
                     Inr (yi + self_h rk * p)))))
             [0..<self_n rk]) (\<lambda>yk1.
        Inr (tk1, yk1)))"

text \<open>
  Python's \<open>round\<close>: to the nearest integer, a tie to the even one; with \<open>ndigits\<close>, the
  same after scaling by a power of ten.
\<close>

definition round_half_even :: "real \<Rightarrow> int" where
  "round_half_even x =
     (let fl = \<lfloor>x\<rfloor>; remainder = x - of_int fl in
      if remainder * 2 < 1 then fl
      else if remainder * 2 > 1 then fl + 1
      else if even fl then fl
      else fl + 1)"

definition round_py :: "real \<Rightarrow> int \<Rightarrow> real" where
  "round_py x ndigits =
     (let shift = 10 ^ nat \<bar>ndigits\<bar> in
      if ndigits > 0 then of_int (round_half_even (x * shift)) / shift
      else of_int (round_half_even (x / shift)) * shift)"

text \<open>
  The \<open>while True\<close> loop of \<open>RK.aplicar\<close>: step, append, then test. A record
  \<open>[tk, *yk]\<close> is the list \<open>tk # yk\<close>. The loop has no bound, so it is a partial
  function: \<open>None\<close> is a run that never returns, \<open>Some (Inl e)\<close> a raised exception,
  \<open>Some (Inr pontos)\<close> the returned trajectory.
\<close>

partial_function (option) aplicar_loop ::
  "RK \<Rightarrow> real \<Rightarrow> real \<Rightarrow> real list \<Rightarrow> real list list \<Rightarrow> (error + real list list) option" where
  "aplicar_loop rk tf tk yk pontos =
     (case yk1 rk tk yk of
        Inl e \<Rightarrow> Some (Inl e)
      | Inr (tk', yk') \<Rightarrow>
          (let pontos' = pontos @ [tk' # yk'] in
           if round_py tk' (self_qntdCasasArredondamento rk) \<ge> tf then Some (Inr pontos')
           else aplicar_loop rk tf tk' yk' pontos'))"

definition aplicar :: "RK \<Rightarrow> real \<Rightarrow> (error + real list list) option" where
  "aplicar rk tf =
     (let pontos = [self_t0 rk # self_y0 rk]; tk = self_t0 rk; yk = self_y0 rk in
      aplicar_loop rk tf tk yk pontos)"

text \<open>
  The stage as the specification words it, for comparison with \<open>kappa\<close>: the sum of the
  shifted state ranges over every stage \<open>s < r\<close>.
\<close>

function stage_spec :: "RK \<Rightarrow> deriv \<Rightarrow> real \<Rightarrow> real list \<Rightarrow> nat \<Rightarrow> error + real" where
  "stage_spec rk f t y r =
     bindE (nth_py (self_c rk) r) (\<lambda>cr.
       let instante = t + self_h rk * cr in
       bindE (mapE (\<lambda>i.
                bindE (nth_py y i) (\<lambda>yi.
                  bindE (sumE (\<lambda>s.
                           bindE (nth_py (self_a rk) r) (\<lambda>ar.
                             bindE (nth_py ar s) (\<lambda>ars.
                               bindE (stage_spec rk f t y s) (\<lambda>k. Inr (ars * k)))))
                         [0..<r] 0) (\<lambda>sm.
                    Inr (yi + self_h rk * sm))))
              [0..<self_n rk]) (\<lambda>termos_y.
         call f instante termos_y))"
  by pat_completeness auto
termination
  by (relation "measure (\<lambda>(rk, f, t, y, r). r)") auto


text \<open>
  The systems of the examples: the scalar equation \<open>lambda t, y: y\<close> (called with another
  number of arguments it raises), the same equation raising once \<open>y\<close> exceeds 1, and the
  two-stage tableau
  that \<^verbatim>\<open>ex1.py\<close> and \<^verbatim>\<open>ex2.py\<close> use.
\<close>

definition f_exp :: deriv where
  "f_exp t ys = (case ys of [y] \<Rightarrow> Some y | _ \<Rightarrow> None)"


definition a_rk2 :: "real list list" where
  "a_rk2 = [[0, 0], [2 / 3, 0]]"

definition b_rk2 :: "real list" where
  "b_rk2 = [1 / 4, 3 / 4]"

definition rk_exp :: "real \<Rightarrow> real \<Rightarrow> RK" where
  "rk_exp t0 h = RK_init [f_exp] t0 [1] h 2 a_rk2 b_rk2"

declare aplicar_loop.simps [code]

declare kappa.simps [simp del] stage_spec.simps [simp del]

section \<open>Exceptions as values: the first failure wins\<close>

lemma bindE_Inl [simp]: "bindE (Inl e) k = Inl e"
  by (simp add: bindE_def)

lemma bindE_Inr [simp]: "bindE (Inr x) k = k x"
  by (simp add: bindE_def)

lemma bindE_eq_Inr: "bindE m k = Inr v \<longleftrightarrow> (\<exists>x. m = Inr x \<and> k x = Inr v)"
  by (cases m) simp_all

lemma bindE_eq_Inl: "bindE m k = Inl e \<longleftrightarrow> m = Inl e \<or> (\<exists>x. m = Inr x \<and> k x = Inl e)"
  by (cases m) simp_all

lemma nth_py_eq_Inr: "nth_py xs i = Inr v \<longleftrightarrow> i < length xs \<and> v = xs ! i"
  by (auto simp: nth_py_def)

lemma nth_py_eq_Inl: "nth_py xs i = Inl e \<longleftrightarrow> \<not> i < length xs \<and> e = IndexError"
  by (auto simp: nth_py_def)

lemma mapE_Inr:
  "mapE g xs = Inr vs \<Longrightarrow> length vs = length xs \<and> (\<forall>j<length xs. g (xs ! j) = Inr (vs ! j))"
proof (induction xs arbitrary: vs)
  case Nil
  then show ?case by simp
next
  case (Cons x xs)
  from Cons.prems obtain v ws where v: "g x = Inr v" and ws: "mapE g xs = Inr ws"
    and vs: "vs = v # ws"
    by (auto simp: bindE_eq_Inr)
  from Cons.IH [OF ws] v vs show ?case
    by (auto simp: nth_Cons split: nat.splits)
qed

lemma mapE_fails: "x \<in> set xs \<Longrightarrow> g x = Inl e \<Longrightarrow> \<exists>e'. mapE g xs = Inl e'"
proof (induction xs)
  case Nil
  then show ?case by simp
next
  case (Cons z zs)
  show ?case
  proof (cases "g z")
    case (Inl e0)
    then show ?thesis by simp
  next
    case (Inr v)
    with Cons.prems have "x \<in> set zs" by auto
    from Cons.IH [OF this Cons.prems(2)] obtain e' where "mapE g zs = Inl e'" ..
    with Inr show ?thesis by simp
  qed
qed

lemma sumE_Inr:
  "sumE g xs acc = Inr v \<Longrightarrow>
     (\<forall>x\<in>set xs. \<exists>w. g x = Inr w) \<and> v = acc + (\<Sum>x\<leftarrow>xs. projr (g x))"
proof (induction xs arbitrary: acc)
  case Nil
  then show ?case by simp
next
  case (Cons x xs)
  from Cons.prems obtain w where w: "g x = Inr w" and rest: "sumE g xs (acc + w) = Inr v"
    by (auto simp: bindE_eq_Inr)
  from Cons.IH [OF rest] w show ?case by simp
qed

lemma sumE_fails: "x \<in> set xs \<Longrightarrow> g x = Inl e \<Longrightarrow> \<exists>e'. sumE g xs acc = Inl e'"
proof (induction xs arbitrary: acc)
  case Nil
  then show ?case by simp
next
  case (Cons z zs)
  show ?case
  proof (cases "g z")
    case (Inl e0)
    then show ?thesis by simp
  next
    case (Inr v)
    with Cons.prems have "x \<in> set zs" by auto
    from Cons.IH [OF this Cons.prems(2)] obtain e' where "sumE g zs (acc + v) = Inl e'" ..
    with Inr show ?thesis by simp
  qed
qed

lemma yk1_Inr:
  assumes "yk1 rk tk yk = Inr (tk1, ys)"
  shows "tk1 = tk + self_h rk" and "length ys = self_n rk"
  using assms by (auto simp: yk1_def Let_def bindE_eq_Inr dest: mapE_Inr)

section \<open>Python's round\<close>








section \<open>The driving loop\<close>

text \<open>What a returned trajectory looks like, from any point of the loop.\<close>

lemma aplicar_loop_returns:
  assumes "aplicar_loop rk tf tk yk pontos = Some res"
  shows "self_qntdCasasArredondamento rk = 10 \<longrightarrow> (\<forall>pts. res = Inr pts \<longrightarrow>
           (\<exists>more. pts = pontos @ more \<and> more \<noteq> [] \<and>
              (\<forall>j<length more. hd (more ! j) = tk + real (Suc j) * self_h rk) \<and>
              tf \<le> round_py (tk + real (length more) * self_h rk) 10 \<and>
              (\<forall>j. 1 \<le> j \<and> j < length more \<longrightarrow> round_py (tk + real j * self_h rk) 10 < tf)))"
  using assms
proof (induction rule: aplicar_loop.raw_induct [rotated, consumes 1, case_names body])
  case (body loop rk tf tk yk pontos res)
  show ?case
  proof (intro impI allI)
    fix pts
    assume q: "self_qntdCasasArredondamento rk = 10" and res: "res = Inr pts"
    from body(2) res obtain tk' yk' where step: "yk1 rk tk yk = Inr (tk', yk')"
      by (auto split: sum.splits)
    then have tk': "tk' = tk + self_h rk" by (rule yk1_Inr)
    show "\<exists>more. pts = pontos @ more \<and> more \<noteq> [] \<and>
              (\<forall>j<length more. hd (more ! j) = tk + real (Suc j) * self_h rk) \<and>
              tf \<le> round_py (tk + real (length more) * self_h rk) 10 \<and>
              (\<forall>j. 1 \<le> j \<and> j < length more \<longrightarrow> round_py (tk + real j * self_h rk) 10 < tf)"
    proof (cases "tf \<le> round_py tk' 10")
      case True
      with body(2) step q res have "pts = pontos @ [tk' # yk']" by simp
      with True tk' show ?thesis by simp
    next
      case False
      with body(2) step q have "loop rk tf tk' yk' (pontos @ [tk' # yk']) = Some res"
        by simp
      from body(1) [OF this] q res obtain more where
        pts: "pts = (pontos @ [tk' # yk']) @ more" and
        hds: "\<forall>j<length more. hd (more ! j) = tk' + real (Suc j) * self_h rk" and
        fin: "tf \<le> round_py (tk' + real (length more) * self_h rk) 10" and
        bef: "\<forall>j. 1 \<le> j \<and> j < length more \<longrightarrow> round_py (tk' + real j * self_h rk) 10 < tf"
        by blast
      let ?more = "(tk' # yk') # more"
      have a: "pts = pontos @ ?more" using pts by simp
      have b: "\<forall>j<length ?more. hd (?more ! j) = tk + real (Suc j) * self_h rk"
        using hds tk' by (auto simp: nth_Cons algebra_simps split: nat.splits)
      have c: "tf \<le> round_py (tk + real (length ?more) * self_h rk) 10"
        using fin tk' by (simp add: algebra_simps)
      have d: "\<forall>j. 1 \<le> j \<and> j < length ?more \<longrightarrow> round_py (tk + real j * self_h rk) 10 < tf"
      proof (intro allI impI)
        fix j assume j: "1 \<le> j \<and> j < length ?more"
        show "round_py (tk + real j * self_h rk) 10 < tf"
        proof (cases "j = 1")
          case True
          with False tk' show ?thesis by simp
        next
          case False
          with j obtain i where i: "j = Suc i" "1 \<le> i" "i < length more"
            by (cases j) auto
          with bef have "round_py (tk' + real i * self_h rk) 10 < tf" by blast
          with i tk' show ?thesis by (simp add: algebra_simps)
        qed
      qed
      from a b c d show ?thesis by blast
    qed
  qed
qed



text \<open>A failure of the loop is the failure of one of its steps.\<close>

lemma aplicar_loop_fails:
  assumes "aplicar_loop rk tf tk yk pontos = Some res"
  shows "\<forall>e. res = Inl e \<longrightarrow> (\<exists>t y. yk1 rk t y = Inl e)"
  using assms
proof (induction rule: aplicar_loop.raw_induct [rotated, consumes 1, case_names body])
  case (body loop rk tf tk yk pontos res)
  show ?case
  proof (cases "yk1 rk tk yk")
    case (Inl e)
    with body(2) show ?thesis by auto
  next
    case (Inr p)
    obtain tk' yk' where p: "p = (tk', yk')" by (cases p)
    show ?thesis
    proof (cases "tf \<le> round_py tk' (self_qntdCasasArredondamento rk)")
      case True
      with body(2) Inr p show ?thesis by auto
    next
      case False
      with body(2) Inr p have "loop rk tf tk' yk' (pontos @ [tk' # yk']) = Some res"
        by simp
      from body(1) [OF this] show ?thesis .
    qed
  qed
qed

section \<open>The scalar system y' = y with the two-stage tableau\<close>

lemma rk_exp_fields [simp]:
  "self_R (rk_exp t0 h) = 2" "self_n (rk_exp t0 h) = 1" "self_f (rk_exp t0 h) = [f_exp]"
  "self_t0 (rk_exp t0 h) = t0" "self_y0 (rk_exp t0 h) = [1]" "self_h (rk_exp t0 h) = h"
  "self_a (rk_exp t0 h) = [[0, 0], [2 / 3, 0]]" "self_b (rk_exp t0 h) = [1 / 4, 3 / 4]"
  "self_c (rk_exp t0 h) = [0, 2 / 3]" "self_qntdCasasArredondamento (rk_exp t0 h) = 10"
  by (simp_all add: rk_exp_def RK_init_def a_rk2_def b_rk2_def)

lemma kappa_exp_0: "kappa (rk_exp t0 h) f_exp t [y] 0 = Inr y"
  by (subst kappa.simps) (simp add: nth_py_def call_def f_exp_def)

lemma kappa_exp_1: "kappa (rk_exp t0 h) f_exp t [y] (Suc 0) = Inr y"
  by (subst kappa.simps) (simp add: nth_py_def call_def f_exp_def)

lemma stage_spec_exp_0: "stage_spec (rk_exp t0 h) f_exp t [y] 0 = Inr y"
  by (subst stage_spec.simps) (simp add: nth_py_def call_def f_exp_def)

lemma stage_spec_exp_1: "stage_spec (rk_exp t0 h) f_exp t [y] (Suc 0) = Inr (y + h * (2 / 3 * y))"
  by (subst stage_spec.simps) (simp add: nth_py_def call_def f_exp_def stage_spec_exp_0)

lemma phi_exp: "phi (rk_exp t0 h) f_exp t [y] = Inr y"
  by (simp add: phi_def nth_py_def kappa_exp_0 kappa_exp_1 numeral_2_eq_2)

lemma yk1_exp: "yk1 (rk_exp t0 h) t [y] = Inr (t + h, [y + h * y])"
  by (simp add: yk1_def nth_py_def phi_exp)

lemma aplicar_loop_exp:
  "aplicar_loop (rk_exp t0 h) tf tk [y] pontos =
     (if tf \<le> round_py (tk + h) 10 then Some (Inr (pontos @ [[tk + h, y + h * y]]))
      else aplicar_loop (rk_exp t0 h) tf (tk + h) [y + h * y] (pontos @ [[tk + h, y + h * y]]))"
  by (subst aplicar_loop.simps) (simp add: yk1_exp)

section \<open>Which errors a step can raise\<close>

lemma mapE_Inl: "mapE g xs = Inl e \<Longrightarrow> \<exists>x\<in>set xs. g x = Inl e"
  by (induction xs) (auto simp: bindE_eq_Inl)

lemma sumE_Inl: "sumE g xs acc = Inl e \<Longrightarrow> \<exists>x\<in>set xs. g x = Inl e"
  by (induction xs arbitrary: acc) (auto simp: bindE_eq_Inl)

lemma call_Inl: "call f t ys = Inl e \<Longrightarrow> e = EvaluationError"
  by (auto simp: call_def split: option.splits)

text \<open>No stage raises a ConfigurationError: its failures are index and evaluation errors.\<close>

lemma kappa_error: "kappa rk f t y r = Inl e \<Longrightarrow> e \<noteq> ConfigurationError"
proof (induction rk f t y r arbitrary: e rule: kappa.induct)
  case (1 rk f t y r)
  from "1.prems" have
    "bindE (nth_py (self_c rk) r) (\<lambda>cr.
       bindE (mapE (\<lambda>i.
                bindE (nth_py y i) (\<lambda>yi.
                  bindE (sumE (\<lambda>s.
                           bindE (nth_py (self_a rk) r) (\<lambda>ar.
                             bindE (nth_py ar s) (\<lambda>ars.
                               bindE (kappa rk f t y s) (\<lambda>k. Inr (ars * k)))))
                         [0..<r - 1] 0) (\<lambda>sm.
                    Inr (yi + self_h rk * sm))))
              [0..<self_n rk]) (\<lambda>termos_y.
         call f (t + self_h rk * cr) termos_y)) = Inl e"
    by (subst (asm) kappa.simps) (simp add: Let_def)
  then consider
      (idx) "e = IndexError"
    | (ev) "e = EvaluationError"
    | (rec) cr i yi s ar ars where "nth_py (self_c rk) r = Inr cr" "i \<in> set [0..<self_n rk]"
        "nth_py y i = Inr yi" "s \<in> set [0..<r - 1]" "nth_py (self_a rk) r = Inr ar"
        "nth_py ar s = Inr ars" "kappa rk f t y s = Inl e"
    by (fastforce simp: bindE_eq_Inl nth_py_eq_Inl dest!: mapE_Inl sumE_Inl call_Inl)
  then show ?case
  proof cases
    case idx
    then show ?thesis by simp
  next
    case ev
    then show ?thesis by simp
  next
    case rec
    from "1.IH" [OF rec(1) refl rec(2) rec(3) rec(4) rec(5) rec(6) rec(7)] show ?thesis .
  qed
qed

lemma phi_error: "phi rk f t y = Inl e \<Longrightarrow> e \<noteq> ConfigurationError"
  unfolding phi_def
  by (auto simp: bindE_eq_Inl nth_py_eq_Inl dest!: sumE_Inl dest: kappa_error)

lemma yk1_error: "yk1 rk tk yk = Inl e \<Longrightarrow> e \<noteq> ConfigurationError"
  unfolding yk1_def Let_def
  by (auto simp: bindE_eq_Inl nth_py_eq_Inl dest!: mapE_Inl dest: phi_error)

lemma phi_Inr:
  assumes "phi rk f t y = Inr p"
  shows "\<forall>r<nat (self_R rk). r < length (self_b rk) \<and> (\<exists>k. kappa rk f t y r = Inr k)"
    and "p = (\<Sum>r<nat (self_R rk). self_b rk ! r * projr (kappa rk f t y r))"
proof -
  let ?g = "\<lambda>r. bindE (nth_py (self_b rk) r) (\<lambda>br. bindE (kappa rk f t y r) (\<lambda>k. Inr (br * k)))"
  from assms have s: "sumE ?g [0..<nat (self_R rk)] 0 = Inr p" by (simp add: phi_def)
  from sumE_Inr [OF s] have each: "\<forall>r\<in>set [0..<nat (self_R rk)]. \<exists>w. ?g r = Inr w"
    and p: "p = 0 + (\<Sum>r\<leftarrow>[0..<nat (self_R rk)]. projr (?g r))" by simp_all
  show a: "\<forall>r<nat (self_R rk). r < length (self_b rk) \<and> (\<exists>k. kappa rk f t y r = Inr k)"
    using each by (auto simp: bindE_eq_Inr nth_py_eq_Inr)
  have "projr (?g r) = self_b rk ! r * projr (kappa rk f t y r)" if "r < nat (self_R rk)" for r
    using a that by (auto simp: nth_py_def)
  then have "(\<Sum>r\<leftarrow>[0..<nat (self_R rk)]. projr (?g r)) =
             (\<Sum>r\<leftarrow>[0..<nat (self_R rk)]. self_b rk ! r * projr (kappa rk f t y r))"
    by (intro arg_cong [where f = sum_list] map_cong) auto
  also have "\<dots> = (\<Sum>r<nat (self_R rk). self_b rk ! r * projr (kappa rk f t y r))"
    by (simp add: interv_sum_list_conv_sum_set_nat atLeast0LessThan)
  finally show "p = (\<Sum>r<nat (self_R rk). self_b rk ! r * projr (kappa rk f t y r))"
    using p by simp
qed

text \<open>A stage that fails makes the whole step fail.\<close>

lemma phi_fails:
  assumes "r < nat (self_R rk)" and "kappa rk f t y r = Inl e"
  shows "\<exists>e'. phi rk f t y = Inl e'"
proof -
  let ?g = "\<lambda>r. bindE (nth_py (self_b rk) r) (\<lambda>br. bindE (kappa rk f t y r) (\<lambda>k. Inr (br * k)))"
  have "\<exists>e0. ?g r = Inl e0" using assms(2) by (cases "nth_py (self_b rk) r") simp_all
  then obtain e0 where "?g r = Inl e0" ..
  moreover have "r \<in> set [0..<nat (self_R rk)]" using assms(1) by simp
  ultimately show ?thesis unfolding phi_def by (rule sumE_fails [rotated])
qed

lemma yk1_fails:
  assumes "i < self_n rk" and "phi rk (self_f rk ! i) tk yk = Inl e"
  shows "\<exists>e'. yk1 rk tk yk = Inl e'"
proof -
  let ?g = "\<lambda>i. bindE (nth_py yk i) (\<lambda>yi. bindE (nth_py (self_f rk) i) (\<lambda>fi.
              bindE (phi rk fi tk yk) (\<lambda>p. Inr (yi + self_h rk * p))))"
  have "\<exists>e0. ?g i = Inl e0"
    using assms(2) by (cases "i < length yk"; cases "i < length (self_f rk)") (simp_all add: nth_py_def)
  then obtain e0 where "?g i = Inl e0" ..
  moreover have "i \<in> set [0..<self_n rk]" using assms(1) by simp
  ultimately have "\<exists>e'. mapE ?g [0..<self_n rk] = Inl e'" by (rule mapE_fails [rotated])
  then show ?thesis by (auto simp: yk1_def Let_def)
qed


section \<open>Trajectories of a constructed integrator\<close>

lemma RK_init_fields [simp]:
  "self_R (RK_init f t0 y0 h R a b) = R" "self_n (RK_init f t0 y0 h R a b) = length f"
  "self_f (RK_init f t0 y0 h R a b) = f" "self_t0 (RK_init f t0 y0 h R a b) = t0"
  "self_y0 (RK_init f t0 y0 h R a b) = y0" "self_h (RK_init f t0 y0 h R a b) = h"
  "self_a (RK_init f t0 y0 h R a b) = a" "self_b (RK_init f t0 y0 h R a b) = b"
  "self_c (RK_init f t0 y0 h R a b) = map sum_list a"
  "self_qntdCasasArredondamento (RK_init f t0 y0 h R a b) = 10"
  by (simp_all add: RK_init_def)

text \<open>The shape of every trajectory that a constructed integrator returns.\<close>

lemma aplicar_returns:
  assumes "aplicar (RK_init f t0 y0 h R a b) tf = Some (Inr pts)"
  obtains more where "pts = (t0 # y0) # more" and "more \<noteq> []"
    and "\<forall>j<length more. hd (more ! j) = t0 + real (Suc j) * h"
    and "tf \<le> round_py (t0 + real (length more) * h) 10"
    and "\<forall>j. 1 \<le> j \<and> j < length more \<longrightarrow> round_py (t0 + real j * h) 10 < tf"
proof -
  from assms have "aplicar_loop (RK_init f t0 y0 h R a b) tf t0 y0 [t0 # y0] = Some (Inr pts)"
    by (simp add: aplicar_def)
  from aplicar_loop_returns [OF this] that show thesis by auto
qed

lemma aplicar_instants:
  assumes "aplicar (RK_init f t0 y0 h R a b) tf = Some (Inr pts)" and "k < length pts"
  shows "hd (pts ! k) = t0 + real k * h"
proof -
  from assms(1) obtain more where pts: "pts = (t0 # y0) # more"
    and hds: "\<forall>j<length more. hd (more ! j) = t0 + real (Suc j) * h"
    by (rule aplicar_returns)
  show ?thesis
  proof (cases k)
    case 0
    with pts show ?thesis by simp
  next
    case (Suc j)
    with assms(2) pts have "j < length more" by simp
    with hds have "hd (more ! j) = t0 + real (Suc j) * h" by blast
    with Suc pts show ?thesis by simp
  qed
qed

text \<open>Two concrete runs of the scalar system.\<close>

lemma run_exp_unit_step: "aplicar (rk_exp 0 1) 0 = Some (Inr [[0, 1], [1, 2]])"
  unfolding aplicar_def Let_def rk_exp_fields
  by (subst aplicar_loop_exp) (simp add: round_py_def round_half_even_def)

lemma run_exp_tenths:
  "aplicar (rk_exp 0 (1 / 10)) 1 =
     Some (Inr [[0, 1], [1 / 10, 11 / 10], [1 / 5, 121 / 100],
       [3 / 10, 1331 / 1000], [2 / 5, 14641 / 10000], [1 / 2, 161051 / 100000],
       [3 / 5, 1771561 / 1000000], [7 / 10, 19487171 / 10000000],
       [4 / 5, 214358881 / 100000000], [9 / 10, 2357947691 / 1000000000],
       [1, 25937424601 / 10000000000]])"
  unfolding aplicar_def Let_def rk_exp_fields
  by (subst aplicar_loop_exp, simp add: round_py_def round_half_even_def)+

text \<open>
  C8. For every run of \<open>aplicar\<close> that returns, the first record of the trajectory is the
  initial condition \<open>[t0, *y0]\<close> given to the constructor, unchanged.
\<close>

theorem aplicar_first_record:
  "aplicar (RK_init f t0 y0 h R a b) tf = Some (Inr pts) \<Longrightarrow> \<exists>rest. pts = (t0 # y0) # rest"
  by (erule aplicar_returns) blast

theorem aplicar_first_record_witness:
  "aplicar (RK_init [f_exp] 0 [1] 1 2 a_rk2 b_rk2) 0 = Some (Inr [[0, 1], [1, 2]]) \<and>
   (\<exists>rest. [[0, 1], [1, 2]] = (0 # [1 :: real]) # rest)"
proof -
  have run: "aplicar (RK_init [f_exp] 0 [1] 1 2 a_rk2 b_rk2) 0 = Some (Inr [[0, 1], [1, 2]])"
    using run_exp_unit_step by (simp add: rk_exp_def)
  from run aplicar_first_record [OF run] show ?thesis by blast
qed

text \<open>
  C9. In a returned trajectory every two consecutive records, the last pair included, have
  instants that differ by exactly the step \<open>h\<close> (in exact arithmetic).
\<close>

theorem aplicar_step_spacing:
  assumes "aplicar (RK_init f t0 y0 h R a b) tf = Some (Inr pts)" and "Suc k < length pts"
  shows "hd (pts ! Suc k) - hd (pts ! k) = h"
proof -
  from assms have "hd (pts ! Suc k) = t0 + real (Suc k) * h"
    by (intro aplicar_instants)
  moreover from assms have "hd (pts ! k) = t0 + real k * h"
    by (intro aplicar_instants) simp_all
  ultimately show ?thesis by (simp add: algebra_simps)
qed

theorem aplicar_step_spacing_witness:
  "aplicar (RK_init [f_exp] 0 [1] (1 / 10) 2 a_rk2 b_rk2) 1 =
     Some (Inr [[0, 1], [1 / 10, 11 / 10], [1 / 5, 121 / 100],
       [3 / 10, 1331 / 1000], [2 / 5, 14641 / 10000], [1 / 2, 161051 / 100000],
       [3 / 5, 1771561 / 1000000], [7 / 10, 19487171 / 10000000],
       [4 / 5, 214358881 / 100000000], [9 / 10, 2357947691 / 1000000000],
       [1, 25937424601 / 10000000000]]) \<and>
   hd ([1, 25937424601 / 10000000000]) - hd ([9 / 10, 2357947691 / 1000000000]) = (1 / 10 :: real)"
proof -
  let ?pts = "[[0, 1], [1 / 10, 11 / 10], [1 / 5, 121 / 100],
       [3 / 10, 1331 / 1000], [2 / 5, 14641 / 10000], [1 / 2, 161051 / 100000],
       [3 / 5, 1771561 / 1000000], [7 / 10, 19487171 / 10000000],
       [4 / 5, 214358881 / 100000000], [9 / 10, 2357947691 / 1000000000],
       [1, 25937424601 / 10000000000 :: real]]"
  have run: "aplicar (RK_init [f_exp] 0 [1] (1 / 10) 2 a_rk2 b_rk2) 1 = Some (Inr ?pts)"
    using run_exp_tenths by (simp add: rk_exp_def)
  have "Suc 9 < length ?pts" by simp
  from aplicar_step_spacing [OF run this] run show ?thesis by simp
qed

text \<open>
  C10. The loop steps before it first tests the exit condition: a returned trajectory has at
  least two records, also in the misuse case \<open>tf \<le> t0\<close> with \<open>h > 0\<close>, where no error is raised.
\<close>

theorem aplicar_at_least_two_records:
  "aplicar (RK_init f t0 y0 h R a b) tf = Some (Inr pts) \<Longrightarrow> 2 \<le> length pts"
  by (erule aplicar_returns) (cases pts, auto simp: Suc_le_eq)

theorem aplicar_at_least_two_records_witness:
  "(0 :: real) \<le> 0 \<and> (0 :: real) < 1 \<and>
   aplicar (RK_init [f_exp] 0 [1] 1 2 a_rk2 b_rk2) 0 = Some (Inr [[0, 1], [1, 2]]) \<and>
   2 \<le> length [[0, 1], [1, 2 :: real]]"
proof -
  have run: "aplicar (RK_init [f_exp] 0 [1] 1 2 a_rk2 b_rk2) 0 = Some (Inr [[0, 1], [1, 2]])"
    using run_exp_unit_step by (simp add: rk_exp_def)
  from run aplicar_at_least_two_records [OF run] show ?thesis by simp
qed

section \<open>Bounds on e\<close>

text \<open>Bounds on \<open>e\<close> by repeated squaring of \<open>(1 \<plusminus> 1/128)\<close>.\<close>

lemma power_double_lower:
  fixes x :: real
  assumes "0 \<le> b" and "b \<le> x ^ k" and "c \<le> b * b"
  shows "c \<le> x ^ (2 * k)"
proof -
  have "b * b \<le> x ^ k * x ^ k" using assms(1,2) by (intro mult_mono) simp_all
  also have "\<dots> = x ^ (2 * k)" by (simp add: mult_2 power_add)
  finally show ?thesis using assms(3) by simp
qed

lemma exp_1_lower: "(270773889 / 100000000 :: real) \<le> exp 1"
proof -
  let ?x = "129 / 128 :: real"
  have "?x \<le> ?x ^ 1" by simp
  then have "203137207 / 200000000 \<le> ?x ^ (2 * 1)"
    by (rule power_double_lower [rotated]) simp_all
  then have "1031618121 / 1000000000 \<le> ?x ^ (2 * (2 * 1))"
    by (rule power_double_lower [rotated]) simp_all
  then have "1064235947 / 1000000000 \<le> ?x ^ (2 * (2 * (2 * 1)))"
    by (rule power_double_lower [rotated]) simp_all
  then have "22651963 / 20000000 \<le> ?x ^ (2 * (2 * (2 * (2 * 1))))"
    by (rule power_double_lower [rotated]) simp_all
  then have "1282778569 / 1000000000 \<le> ?x ^ (2 * (2 * (2 * (2 * (2 * 1)))))"
    by (rule power_double_lower [rotated]) simp_all
  then have "1645520857 / 1000000000 \<le> ?x ^ (2 * (2 * (2 * (2 * (2 * (2 * 1))))))"
    by (rule power_double_lower [rotated]) simp_all
  then have "270773889 / 100000000 \<le> ?x ^ (2 * (2 * (2 * (2 * (2 * (2 * (2 * 1)))))))"
    by (rule power_double_lower [rotated]) simp_all
  then have "270773889 / 100000000 \<le> ?x ^ 128" by simp
  moreover have "(1 + 1 / real 128) ^ 128 \<le> exp (1 :: real)"
    by (rule exp_ge_one_plus_x_over_n_power_n) simp_all
  then have "?x ^ 128 \<le> exp 1" by simp
  ultimately show ?thesis by linarith
qed

lemma exp_1_upper: "exp 1 \<le> (1000000000 / 366437709 :: real)"
proof -
  let ?x = "127 / 128 :: real"
  have "?x \<le> ?x ^ 1" by simp
  then have "196887207 / 200000000 \<le> ?x ^ (2 * 1)"
    by (rule power_double_lower [rotated]) simp_all
  then have "969114307 / 1000000000 \<le> ?x ^ (2 * (2 * 1))"
    by (rule power_double_lower [rotated]) simp_all
  then have "46959127 / 50000000 \<le> ?x ^ (2 * (2 * (2 * 1)))"
    by (rule power_double_lower [rotated]) simp_all
  then have "882063843 / 1000000000 \<le> ?x ^ (2 * (2 * (2 * (2 * 1))))"
    by (rule power_double_lower [rotated]) simp_all
  then have "778036623 / 1000000000 \<le> ?x ^ (2 * (2 * (2 * (2 * (2 * 1)))))"
    by (rule power_double_lower [rotated]) simp_all
  then have "302670493 / 500000000 \<le> ?x ^ (2 * (2 * (2 * (2 * (2 * (2 * 1))))))"
    by (rule power_double_lower [rotated]) simp_all
  then have "366437709 / 1000000000 \<le> ?x ^ (2 * (2 * (2 * (2 * (2 * (2 * (2 * 1)))))))"
    by (rule power_double_lower [rotated]) simp_all
  then have "366437709 / 1000000000 \<le> ?x ^ 128" by simp
  moreover have "(1 - 1 / real 128) ^ 128 \<le> exp (- 1 :: real)"
    by (rule exp_ge_one_minus_x_over_n_power_n) simp_all
  then have "?x ^ 128 \<le> exp (- 1)" by simp
  ultimately have "366437709 / 1000000000 \<le> 1 / exp (1 :: real)"
    by (simp add: exp_minus inverse_eq_divide)
  then have "366437709 / 1000000000 * exp (1 :: real) \<le> 1"
    by (simp add: pos_le_divide_eq)
  then show ?thesis by simp
qed

section \<open>The stage evaluation and the concrete scenario\<close>

text \<open>
  C1. The claim: stage \<open>r\<close> shifts the state by \<open>h\<close> times the sum over every \<open>s < r\<close> of
  \<open>a[r][s] * stage s\<close>. The code sums over \<open>range(r-1)\<close>, the stages \<open>s < r - 1\<close>: for the
  tableau of the examples and \<open>f(t, y) = y\<close> at \<open>t = 0\<close>, \<open>y = [1]\<close>, \<open>h = 1/10\<close>, stage 1 is
  \<open>f\<close> at the unshifted state, 1, where the stage of the claim is \<open>1 + 1/10 * (2/3 * 1) = 16/15\<close>.
\<close>

theorem kappa_omits_previous_stage:
  "kappa (RK_init [f_exp] 0 [1] (1 / 10) 2 [[0, 0], [2 / 3, 0]] [1 / 4, 3 / 4]) f_exp 0 [1] 1 = Inr 1 \<and>
   stage_spec (RK_init [f_exp] 0 [1] (1 / 10) 2 [[0, 0], [2 / 3, 0]] [1 / 4, 3 / 4]) f_exp 0 [1] 1
     = Inr (16 / 15)"
  using kappa_exp_1 [of 0 "1 / 10" 0 1] stage_spec_exp_1 [of 0 "1 / 10" 0 1]
  by (simp add: rk_exp_def a_rk2_def b_rk2_def)

text \<open>
  C6. The scalar equation \<open>f(t, y) = y\<close> from \<open>t0 = 0\<close>, \<open>y0 = [1]\<close> with \<open>h = 1/10\<close>, the
  two-stage tableau and \<open>tf = 1\<close>: the trajectory has 11 records at the instants
  \<open>0, 1/10, \<dots>, 1\<close>, and its final state, \<open>(11/10)^10\<close>, is within 5 percent of \<open>e\<close>
  (and more than 4 percent away from it).
\<close>

theorem aplicar_exp_scenario:
  "\<exists>pts yf. aplicar (RK_init [f_exp] 0 [1] (1 / 10) 2 [[0, 0], [2 / 3, 0]] [1 / 4, 3 / 4]) 1
             = Some (Inr pts) \<and>
     length pts = 11 \<and>
     map hd pts = [0, 1 / 10, 2 / 10, 3 / 10, 4 / 10, 5 / 10, 6 / 10, 7 / 10, 8 / 10, 9 / 10, 1] \<and>
     last pts = [1, yf] \<and> yf = (11 / 10) ^ 10 \<and>
     \<bar>yf - exp 1\<bar> < 5 / 100 * exp 1 \<and> 4 / 100 * exp 1 < \<bar>yf - exp 1\<bar>"
proof -
  let ?yf = "25937424601 / 10000000000 :: real"
  have "\<bar>?yf - exp 1\<bar> < 5 / 100 * exp 1" and "4 / 100 * exp 1 < \<bar>?yf - exp 1\<bar>"
    using exp_1_lower exp_1_upper by simp_all
  moreover have "?yf = (11 / 10) ^ 10" by (simp add: power_divide)
  ultimately show ?thesis
    using run_exp_tenths by (simp add: rk_exp_def a_rk2_def b_rk2_def)
qed

section \<open>One step and the propagation of failures\<close>

text \<open>
  C5. A step that returns gives the instant \<open>tk + h\<close> and, for every equation index \<open>i\<close>,
  the component \<open>yk[i] + h * \<phi>\<^sub>i\<close>, where \<open>\<phi>\<^sub>i\<close> is the sum over \<open>r < R\<close> of \<open>b[r]\<close> times stage
  \<open>r\<close> of \<open>f[i]\<close>; every stage is evaluated at the same \<open>(tk, yk)\<close>, the arguments of the step,
  which the step only reads.
\<close>

theorem yk1_weighted_stages:
  assumes "yk1 rk tk yk = Inr (tk1, ys)"
  shows "tk1 = tk + self_h rk \<and> length ys = self_n rk \<and>
         (\<forall>i<self_n rk. i < length yk \<and> i < length (self_f rk) \<and>
            (\<forall>r<nat (self_R rk). r < length (self_b rk) \<and>
               (\<exists>k. kappa rk (self_f rk ! i) tk yk r = Inr k)) \<and>
            ys ! i = yk ! i + self_h rk *
              (\<Sum>r<nat (self_R rk). self_b rk ! r * projr (kappa rk (self_f rk ! i) tk yk r)))"
proof (intro conjI allI impI)
  show "tk1 = tk + self_h rk" and "length ys = self_n rk"
    using assms by (rule yk1_Inr)+
next
  fix i assume i: "i < self_n rk"
  let ?g = "\<lambda>i. bindE (nth_py yk i) (\<lambda>yi. bindE (nth_py (self_f rk) i) (\<lambda>fi.
              bindE (phi rk fi tk yk) (\<lambda>p. Inr (yi + self_h rk * p))))"
  from assms have "mapE ?g [0..<self_n rk] = Inr ys"
    by (auto simp: yk1_def Let_def bindE_eq_Inr)
  from mapE_Inr [OF this] i have "?g ([0..<self_n rk] ! i) = Inr (ys ! i)" by simp
  with i have "?g i = Inr (ys ! i)" by simp
  then obtain p where yi: "i < length yk" and fi: "i < length (self_f rk)"
    and p: "phi rk (self_f rk ! i) tk yk = Inr p" and ys: "ys ! i = yk ! i + self_h rk * p"
    by (auto simp: bindE_eq_Inr nth_py_eq_Inr)
  show "i < length yk" by (rule yi)
  show "i < length (self_f rk)" by (rule fi)
  show "ys ! i = yk ! i + self_h rk *
          (\<Sum>r<nat (self_R rk). self_b rk ! r * projr (kappa rk (self_f rk ! i) tk yk r))"
    using ys phi_Inr(2) [OF p] by simp
  fix r assume "r < nat (self_R rk)"
  with phi_Inr(1) [OF p]
  show "r < length (self_b rk)" and "\<exists>k. kappa rk (self_f rk ! i) tk yk r = Inr k"
    by blast+
qed

theorem yk1_weighted_stages_witness:
  "yk1 (rk_exp 0 (1 / 10)) 0 [1] = Inr (1 / 10, [11 / 10]) \<and>
   [11 / 10 :: real] ! 0 = [1] ! 0 + 1 / 10 *
     (\<Sum>r<2. [1 / 4, 3 / 4] ! r * projr (kappa (rk_exp 0 (1 / 10)) f_exp 0 [1] r))"
proof -
  have step: "yk1 (rk_exp 0 (1 / 10)) 0 [1] = Inr (1 / 10, [11 / 10])"
    by (simp add: yk1_exp)
  from yk1_weighted_stages [OF step] have
    "\<forall>i<1. [11 / 10 :: real] ! i = [1] ! i + 1 / 10 *
       (\<Sum>r<2. [1 / 4, 3 / 4] ! r * projr (kappa (rk_exp 0 (1 / 10)) ([f_exp] ! i) 0 [1] r))"
    by simp
  then have "[11 / 10 :: real] ! 0 = [1] ! 0 + 1 / 10 *
       (\<Sum>r<2. [1 / 4, 3 / 4] ! r * projr (kappa (rk_exp 0 (1 / 10)) ([f_exp] ! 0) 0 [1] r))"
    by blast
  with step show ?thesis by simp
qed





section \<open>The exit test of the loop\<close>






section \<open>Run parameters are not validated\<close>








section \<open>The constructor does not validate the tableau\<close>

text \<open>A tableau with too few weights or too few rows makes the first step fail.\<close>

lemma phi_short_b:
  assumes "length (self_b rk) < nat (self_R rk)"
  shows "\<exists>e'. phi rk f t y = Inl e'"
proof -
  let ?g = "\<lambda>r. bindE (nth_py (self_b rk) r) (\<lambda>br. bindE (kappa rk f t y r) (\<lambda>k. Inr (br * k)))"
  have "?g (length (self_b rk)) = Inl IndexError" by (simp add: nth_py_def)
  moreover have "length (self_b rk) \<in> set [0..<nat (self_R rk)]" using assms by simp
  ultimately show ?thesis unfolding phi_def by (rule sumE_fails [rotated])
qed

lemma kappa_short_c: "\<not> r < length (self_c rk) \<Longrightarrow> kappa rk f t y r = Inl IndexError"
  by (subst kappa.simps) (simp add: nth_py_def)

lemma phi_short_a:
  assumes "length (self_c rk) < nat (self_R rk)"
  shows "\<exists>e'. phi rk f t y = Inl e'"
proof -
  have "kappa rk f t y (length (self_c rk)) = Inl IndexError" by (rule kappa_short_c) simp
  with assms show ?thesis by (rule phi_fails)
qed

lemma aplicar_first_step_fails:
  assumes "yk1 rk (self_t0 rk) (self_y0 rk) = Inl e"
  shows "aplicar rk tf = Some (Inl e)"
  unfolding aplicar_def Let_def using assms by (subst aplicar_loop.simps) simp

text \<open>With no equation a step reads neither the state nor the tableau.\<close>

lemma yk1_no_equations: "self_n rk = 0 \<Longrightarrow> yk1 rk t y = Inr (t + self_h rk, [])"
  by (simp add: yk1_def)

text \<open>
  C2, as stated, fails: the constructor has no check. A tableau whose weight vector is too
  short, whose second row is too short and whose first row is not zero is accepted.
\<close>

theorem RK_new_counterexample:
  "int (length [1 :: real]) \<noteq> 2 \<and> int (length ([[5, 1], [0 :: real]] ! 1)) \<noteq> 2 \<and>
   [[5, 1], [0 :: real]] ! 0 ! 0 \<noteq> 0 \<and>
   RK_new [f_exp] 0 [1] (1 / 10) 2 [[5, 1], [0]] [1]
     = Inr (RK_init [f_exp] 0 [1] (1 / 10) 2 [[5, 1], [0]] [1])"
  by (simp add: RK_new_def)

text \<open>
  C2, amended. Construction from \<open>(R, a, b)\<close> has no check and never fails: it stores \<open>R\<close>,
  \<open>a\<close>, \<open>b\<close> and the row sums of \<open>a\<close>, whatever the tableau. When the system has at least
  one equation, a weight vector or a matrix with fewer than \<open>R\<close> entries or rows is found only
  in the run, whose first step fails with an error that is not a ConfigurationError. When the
  system has no equation the tableau is never read and no run fails.
\<close>

theorem RK_new_never_fails:
  "\<exists>rk. RK_new f t0 y0 h R a b = Inr rk \<and>
     self_R rk = R \<and> self_a rk = a \<and> self_b rk = b \<and> self_c rk = map sum_list a \<and>
     ((length b < nat R \<or> length a < nat R) \<and> f \<noteq> [] \<longrightarrow>
        (\<exists>e. e \<noteq> ConfigurationError \<and> aplicar rk tf = Some (Inl e))) \<and>
     (f = [] \<longrightarrow> (\<forall>e. aplicar rk tf \<noteq> Some (Inl e)))"
proof -
  let ?rk = "RK_init f t0 y0 h R a b"
  have "\<exists>e. e \<noteq> ConfigurationError \<and> aplicar ?rk tf = Some (Inl e)"
    if short: "length b < nat R \<or> length a < nat R" and f: "f \<noteq> []"
  proof -
    from short have "\<exists>e'. phi ?rk (self_f ?rk ! 0) t0 y0 = Inl e'"
    proof
      assume "length b < nat R"
      then show ?thesis by (intro phi_short_b) simp
    next
      assume "length a < nat R"
      then show ?thesis by (intro phi_short_a) simp
    qed
    then obtain e1 where "phi ?rk (self_f ?rk ! 0) t0 y0 = Inl e1" ..
    moreover from f have "0 < self_n ?rk" by simp
    ultimately have "\<exists>e'. yk1 ?rk t0 y0 = Inl e'" by (rule yk1_fails [rotated])
    then obtain e where e: "yk1 ?rk t0 y0 = Inl e" ..
    then have "e \<noteq> ConfigurationError" by (rule yk1_error)
    moreover from e have "aplicar ?rk tf = Some (Inl e)"
      by (intro aplicar_first_step_fails) simp
    ultimately show ?thesis by blast
  qed
  moreover have "aplicar ?rk tf \<noteq> Some (Inl e)" if f: "f = []" for e
  proof
    assume "aplicar ?rk tf = Some (Inl e)"
    then have "aplicar_loop ?rk tf t0 y0 [t0 # y0] = Some (Inl e)" by (simp add: aplicar_def)
    from aplicar_loop_fails [OF this] obtain t y where "yk1 ?rk t y = Inl e" by blast
    moreover have "yk1 ?rk t y = Inr (t + self_h ?rk, [])"
      using f by (intro yk1_no_equations) simp
    ultimately show False by simp
  qed
  ultimately show ?thesis by (intro exI [of _ ?rk]) (simp add: RK_new_def)
qed

theorem RK_new_never_fails_witness:
  "length [1 / 4 :: real] < nat 2 \<and> [f_exp] \<noteq> [] \<and>
   (\<exists>rk. RK_new [f_exp] 0 [1] (1 / 10) 2 a_rk2 [1 / 4] = Inr rk \<and>
      (\<exists>e. e \<noteq> ConfigurationError \<and> aplicar rk 1 = Some (Inl e))) \<and>
   (\<exists>rk. RK_new [] 0 [] 1 2 a_rk2 [1 / 4] = Inr rk \<and> (\<forall>e. aplicar rk 1 \<noteq> Some (Inl e)))"
  using RK_new_never_fails [of "[f_exp]" 0 "[1]" "1 / 10" 2 a_rk2 "[1 / 4]" 1]
        RK_new_never_fails [of "[]" 0 "[]" 1 2 a_rk2 "[1 / 4]" 1]
  by auto

end
